theory Spec2Isabelle
  imports Complex_Main
begin

section \<open>JavaScript values\<close>

text \<open>
  A JavaScript \<^verbatim>\<open>number\<close> is an IEEE 754 double: a finite value, \<^verbatim>\<open>NaN\<close> or
  one of the two infinities. A finite double is given by the rational number it
  stands for. The arithmetic operations compute the exact result and round it to
  the nearest double, ties to even, with overflow to an infinity. The two zeros are
  not told apart (a zero divisor counts as \<^verbatim>\<open>+0\<close>).
\<close>

datatype jsnum = Fin rat | NaN | PInf | NInf

text \<open>The sign of an overflow, and of a product or quotient with an infinite operand.\<close>

definition signed_inf :: "bool \<Rightarrow> jsnum" where
  "signed_inf positive = (if positive then PInf else NInf)"

text \<open>
  Rounding to a double. The number of binary digits of a natural number gives the
  binary exponent \<open>e\<close> of a positive rational \<open>x\<close>, the one with
  \<open>2 ^ e \<le> x < 2 ^ (e + 1)\<close>. A double has 53 significant bits, so the doubles
  around \<open>x\<close> are the multiples of \<open>2 ^ (e - 52)\<close>; below the least normal
  exponent -1022 the spacing stays \<open>2 ^ -1074\<close>. A result that rounds to
  \<open>2 ^ 1024\<close> or beyond overflows.
\<close>

fun bit_length :: "nat \<Rightarrow> nat" where
  "bit_length n = (if n = 0 then 0 else Suc (bit_length (n div 2)))"

declare bit_length.simps [simp del]

definition exponent :: "rat \<Rightarrow> int" where
  "exponent x =
     (if 1 \<le> x then int (bit_length (nat \<lfloor>x\<rfloor>)) - 1
      else - int (bit_length (nat (\<lceil>1 / x\<rceil> - 1))))"

definition pow2 :: "int \<Rightarrow> rat" where
  "pow2 k = (if 0 \<le> k then 2 ^ nat k else 1 / 2 ^ nat (- k))"

definition round_half_even :: "rat \<Rightarrow> int" where
  "round_half_even x =
     (let f = \<lfloor>x\<rfloor>; r = x - of_int f
      in if r < 1 / 2 then f else if 1 / 2 < r then f + 1 else if even f then f else f + 1)"

definition round_double :: "rat \<Rightarrow> jsnum" where
  "round_double x =
     (if x = 0 then Fin 0
      else (let q = pow2 (max (exponent \<bar>x\<bar>) (- 1022) - 52);
                r = of_int (round_half_even (x / q)) * q
            in if pow2 1024 \<le> \<bar>r\<bar> then signed_inf (0 < x) else Fin r))"

fun js_neg :: "jsnum \<Rightarrow> jsnum" where
  "js_neg (Fin a) = Fin (- a)"
| "js_neg NaN = NaN"
| "js_neg PInf = NInf"
| "js_neg NInf = PInf"

fun js_add :: "jsnum \<Rightarrow> jsnum \<Rightarrow> jsnum" where
  "js_add (Fin a) (Fin b) = round_double (a + b)"
| "js_add NaN _ = NaN"
| "js_add _ NaN = NaN"
| "js_add PInf NInf = NaN"
| "js_add NInf PInf = NaN"
| "js_add PInf _ = PInf"
| "js_add NInf _ = NInf"
| "js_add (Fin a) PInf = PInf"
| "js_add (Fin a) NInf = NInf"

definition js_sub :: "jsnum \<Rightarrow> jsnum \<Rightarrow> jsnum" where
  "js_sub a b = js_add a (js_neg b)"

fun js_mul :: "jsnum \<Rightarrow> jsnum \<Rightarrow> jsnum" where
  "js_mul (Fin a) (Fin b) = round_double (a * b)"
| "js_mul NaN _ = NaN"
| "js_mul _ NaN = NaN"
| "js_mul PInf (Fin b) = (if b = 0 then NaN else signed_inf (0 < b))"
| "js_mul NInf (Fin b) = (if b = 0 then NaN else signed_inf (b < 0))"
| "js_mul (Fin a) PInf = (if a = 0 then NaN else signed_inf (0 < a))"
| "js_mul (Fin a) NInf = (if a = 0 then NaN else signed_inf (a < 0))"
| "js_mul PInf PInf = PInf"
| "js_mul PInf NInf = NInf"
| "js_mul NInf PInf = NInf"
| "js_mul NInf NInf = PInf"

text \<open>
  Division never throws in JavaScript: a zero divisor gives \<^verbatim>\<open>NaN\<close> for
  \<^verbatim>\<open>0 / 0\<close> and an infinity otherwise.
\<close>

fun js_div :: "jsnum \<Rightarrow> jsnum \<Rightarrow> jsnum" where
  "js_div (Fin a) (Fin b) =
     (if b = 0 then (if a = 0 then NaN else signed_inf (0 < a)) else round_double (a / b))"
| "js_div NaN _ = NaN"
| "js_div _ NaN = NaN"
| "js_div (Fin a) PInf = Fin 0"
| "js_div (Fin a) NInf = Fin 0"
| "js_div PInf (Fin b) = signed_inf (0 \<le> b)"
| "js_div NInf (Fin b) = signed_inf (b < 0)"
| "js_div PInf PInf = NaN"
| "js_div PInf NInf = NaN"
| "js_div NInf PInf = NaN"
| "js_div NInf NInf = NaN"

text \<open>
  \<^verbatim>\<open>Math.floor\<close>: the floor of a double is a double, and the non-finite values
  pass through.
\<close>

fun js_floor :: "jsnum \<Rightarrow> jsnum" where
  "js_floor (Fin a) = Fin (of_int \<lfloor>a\<rfloor>)"
| "js_floor n = n"

text \<open>The comparison \<^verbatim>\<open>a > b\<close>: false as soon as an operand is \<^verbatim>\<open>NaN\<close>.\<close>

fun js_gt :: "jsnum \<Rightarrow> jsnum \<Rightarrow> bool" where
  "js_gt (Fin a) (Fin b) = (b < a)"
| "js_gt NaN _ = False"
| "js_gt _ NaN = False"
| "js_gt PInf PInf = False"
| "js_gt PInf _ = True"
| "js_gt NInf _ = False"
| "js_gt (Fin a) PInf = False"
| "js_gt (Fin a) NInf = True"

fun is_finite :: "jsnum \<Rightarrow> bool" where
  "is_finite (Fin a) = True"
| "is_finite _ = False"

text \<open>
  The values that \<^verbatim>\<open>JSON.parse\<close> can return, and \<^verbatim>\<open>undefined\<close>, which a
  missing property reads as. The pairs of an \<open>Obj\<close> are the object's own properties.
\<close>

datatype jsval =
    Undefined
  | Null
  | Bool bool
  | Num jsnum
  | Str string
  | Arr "jsval list"
  | Obj "(string \<times> jsval) list"

text \<open>Truthiness, as the operator \<^verbatim>\<open>||\<close> tests it.\<close>

fun truthy :: "jsval \<Rightarrow> bool" where
  "truthy Undefined = False"
| "truthy Null = False"
| "truthy (Bool b) = b"
| "truthy (Num (Fin a)) = (a \<noteq> 0)"
| "truthy (Num NaN) = False"
| "truthy (Num PInf) = True"
| "truthy (Num NInf) = True"
| "truthy (Str s) = (s \<noteq> [])"
| "truthy (Arr xs) = True"
| "truthy (Obj kvs) = True"

definition js_or :: "jsval \<Rightarrow> jsval \<Rightarrow> jsval" where
  "js_or a b = (if truthy a then a else b)"

datatype js_error = TypeError | SyntaxError

text \<open>
  The property read \<^verbatim>\<open>data.value\<close>: it throws on \<^verbatim>\<open>null\<close> and
  \<^verbatim>\<open>undefined\<close>, finds an own property of an object, and is \<^verbatim>\<open>undefined\<close>
  on everything else (no prototype of a parsed JSON value has a property of the
  names read here).
\<close>

fun get_prop :: "jsval \<Rightarrow> string \<Rightarrow> js_error + jsval" where
  "get_prop Undefined k = Inl TypeError"
| "get_prop Null k = Inl TypeError"
| "get_prop (Obj kvs) k = (case map_of kvs k of None \<Rightarrow> Inr Undefined | Some v \<Rightarrow> Inr v)"
| "get_prop v k = Inr Undefined"

text \<open>
  What \<^verbatim>\<open>JSON.stringify\<close> writes for a number field: JSON has no notation for
  \<^verbatim>\<open>NaN\<close> and the infinities, they are written as \<^verbatim>\<open>null\<close>.
\<close>

fun json_number :: "jsnum \<Rightarrow> jsval" where
  "json_number (Fin a) = Num (Fin a)"
| "json_number n = Null"

section \<open>The event codec (server/fhe.ts)\<close>

text \<open>
  The codec only ever reads a \<^verbatim>\<open>Buffer\<close> through
  \<^verbatim>\<open>JSON.parse(cipherBlob.toString())\<close>, so a buffer is represented by what that
  call makes of it: a syntax error, or the parsed value. A buffer built by
  \<^verbatim>\<open>Buffer.from(JSON.stringify(obj))\<close> is the parsed form of that text.
\<close>

datatype buffer = Unparseable | Parsed jsval

fun JSON_parse :: "buffer \<Rightarrow> js_error + jsval" where
  "JSON_parse Unparseable = Inl SyntaxError"
| "JSON_parse (Parsed d) = Inr d"

text \<open>
  \<^verbatim>\<open>encryptValue(value, publicKey)\<close>; the third argument is the reading of
  \<^verbatim>\<open>Date.now()\<close>. The key is not used by the source either.
\<close>

definition encryptValue :: "jsnum \<Rightarrow> string \<Rightarrow> int \<Rightarrow> buffer" where
  "encryptValue v publicKey now =
     Parsed (Obj [(''value'', json_number v), (''encrypted'', Bool True),
                  (''timestamp'', json_number (Fin (of_int now)))])"

text \<open>
  \<^verbatim>\<open>decryptValue(cipherBlob, privateKey)\<close>: whatever is thrown inside the
  \<^verbatim>\<open>try\<close> block is caught and answered with 0. The declared result type is
  \<^verbatim>\<open>number\<close>, but \<^verbatim>\<open>data\<close> is untyped, so at run time the result is
  whatever \<^verbatim>\<open>data.value || 0\<close> is.
\<close>

definition decryptValue :: "buffer \<Rightarrow> string \<Rightarrow> jsval" where
  "decryptValue cipherBlob privateKey =
     (case JSON_parse cipherBlob of
        Inl e \<Rightarrow> Num (Fin 0)
      | Inr data \<Rightarrow>
          (case get_prop data ''value'' of
             Inl e \<Rightarrow> Num (Fin 0)
           | Inr v \<Rightarrow> js_or v (Num (Fin 0))))"

text \<open>
  The source adds decoded values with \<^verbatim>\<open>+\<close> under the type \<^verbatim>\<open>number\<close>.
  On a decoded value that is no number JavaScript would coerce (and concatenate
  strings); that is outside this development, and \<open>as_number\<close> is \<open>None\<close> there.
\<close>

fun as_number :: "jsval \<Rightarrow> jsnum option" where
  "as_number (Num n) = Some n"
| "as_number v = None"

text \<open>The callback of \<^verbatim>\<open>ciphers.reduce\<close> in \<^verbatim>\<open>homomorphicSum\<close>.\<close>

definition sum_step :: "jsnum option \<Rightarrow> buffer \<Rightarrow> jsnum option" where
  "sum_step acc cipher =
     (case acc of
        None \<Rightarrow> None
      | Some a \<Rightarrow>
          (case as_number (decryptValue cipher []) of
             None \<Rightarrow> None
           | Some val \<Rightarrow> Some (js_add a val)))"

definition homomorphicSum :: "buffer list \<Rightarrow> int \<Rightarrow> buffer option" where
  "homomorphicSum ciphers now =
     (case foldl sum_step (Some (Fin 0)) ciphers of
        None \<Rightarrow> None
      | Some sum_total \<Rightarrow>
          Some (Parsed (Obj [(''value'', json_number sum_total), (''encrypted'', Bool True),
                             (''timestamp'', json_number (Fin (of_int now)))])))"

text \<open>
  Decoding an aggregate: \<open>None\<close> only when the aggregate itself left the numeric
  fragment.
\<close>

definition decode_sum :: "buffer option \<Rightarrow> jsval option" where
  "decode_sum b = map_option (\<lambda>c. decryptValue c []) b"

text \<open>The encodings of a list of values, each with the clock reading of its call.\<close>

definition encode_all :: "string \<Rightarrow> (jsnum \<times> int) list \<Rightarrow> buffer list" where
  "encode_all publicKey vs = map (\<lambda>(v, t). encryptValue v publicKey t) vs"

text \<open>
  The sum \<^verbatim>\<open>v1 + ... + vN\<close> of a list of numbers as JavaScript adds them, from
  left to right (the order matters, since every addition rounds).
\<close>

definition js_sum :: "jsnum list \<Rightarrow> jsnum" where
  "js_sum vs = foldl js_add (Fin 0) vs"

text \<open>
  Two readings of a buffer, used to state what \<^verbatim>\<open>decryptValue\<close> does on every
  input: whether it parses to an object whose \<^verbatim>\<open>value\<close> field is a number, and
  the \<^verbatim>\<open>value\<close> field of the parsed object, if there is one.
\<close>

fun numeric_value_field :: "buffer \<Rightarrow> bool" where
  "numeric_value_field (Parsed (Obj kvs)) =
     (case map_of kvs ''value'' of Some (Num n) \<Rightarrow> True | _ \<Rightarrow> False)"
| "numeric_value_field b = False"

fun value_field :: "buffer \<Rightarrow> jsval option" where
  "value_field (Parsed (Obj kvs)) = map_of kvs ''value''"
| "value_field b = None"

section \<open>The event store (server/storage.ts)\<close>

text \<open>
  The tables are lists of rows in insertion order. The columns that the database
  fills in by itself (row ids of events and keys, \<^verbatim>\<open>createdAt\<close> of events) are
  declared in the shared schema, which is not among the sources, and are left out
  where no query of this development reads them. Timestamps are milliseconds since
  the epoch. Failures of the database connection are not modelled.
\<close>

record origin =
  oid :: string
  domain :: string
  ownerAddress :: string
  token :: string

record fheKey =
  key_originId :: string
  publicKey :: string
  keyFingerprint :: string
  isActive :: string
  createdAt :: int

record encryptedEvent =
  originId :: string
  timestamp :: int
  page :: string
  eventType :: string
  cipherBlob :: buffer
  metadata :: jsval

record storage =
  origins :: "origin list"
  fheKeys :: "fheKey list"
  encryptedEvents :: "encryptedEvent list"

text \<open>\<^verbatim>\<open>const [row] = await db.select()...\<close>: the first row, or \<^verbatim>\<open>undefined\<close>.\<close>

fun first_row :: "'a list \<Rightarrow> 'a option" where
  "first_row [] = None"
| "first_row (r # rs) = Some r"

definition getOriginByToken :: "storage \<Rightarrow> string \<Rightarrow> origin option" where
  "getOriginByToken db tok = first_row (filter (\<lambda>r. token r = tok) (origins db))"

text \<open>\<^verbatim>\<open>orderBy(desc(col))\<close>, as a stable sort on the negated column.\<close>

definition order_desc :: "('a \<Rightarrow> int) \<Rightarrow> 'a list \<Rightarrow> 'a list" where
  "order_desc col rows = sort_key (\<lambda>r. - col r) rows"

definition getActiveKey :: "storage \<Rightarrow> string \<Rightarrow> fheKey option" where
  "getActiveKey db origin_id =
     first_row (take 1 (order_desc createdAt
       (filter (\<lambda>k. key_originId k = origin_id \<and> isActive k = ''true'') (fheKeys db))))"

definition createEncryptedEvent :: "storage \<Rightarrow> encryptedEvent \<Rightarrow> storage" where
  "createEncryptedEvent db insertEvent =
     db\<lparr>encryptedEvents := encryptedEvents db @ [insertEvent]\<rparr>"

text \<open>
  \<^verbatim>\<open>getEventsByOrigin(originId, limit = 100)\<close>; \<open>None\<close> is the omitted argument.
  The limit is a row count, a natural number.
\<close>

definition getEventsByOrigin :: "storage \<Rightarrow> string \<Rightarrow> nat option \<Rightarrow> encryptedEvent list" where
  "getEventsByOrigin db origin_id limit =
     take (case limit of None \<Rightarrow> 100 | Some n \<Rightarrow> n)
       (order_desc timestamp (filter (\<lambda>e. originId e = origin_id) (encryptedEvents db)))"

section \<open>The aggregation of a window (server/routes.ts)\<close>

text \<open>
  Both handlers build, for each of the three event types, the cipher of the sum of
  the window's events of that type, or a literal zero cipher when there is none.
\<close>

definition zero_cipher :: buffer where
  "zero_cipher = Parsed (Obj [(''value'', Num (Fin 0)), (''encrypted'', Bool True)])"

definition type_cipher :: "encryptedEvent list \<Rightarrow> string \<Rightarrow> int \<Rightarrow> buffer option" where
  "type_cipher events ty now =
     (let typeEvents = filter (\<lambda>e. eventType e = ty) events
      in if length typeEvents > 0
         then homomorphicSum (map cipherBlob typeEvents) now
         else Some zero_cipher)"

text \<open>The decrypted aggregate of one type; \<open>None\<close> outside the numeric fragment.\<close>

definition type_total :: "encryptedEvent list \<Rightarrow> string \<Rightarrow> int \<Rightarrow> jsnum option" where
  "type_total events ty now =
     (case type_cipher events ty now of
        None \<Rightarrow> None
      | Some cipher \<Rightarrow> as_number (decryptValue cipher []))"

record metrics =
  visitors :: jsnum
  pageviews :: jsnum
  sessions :: jsnum
  avgSession :: jsnum
  bounceRate :: jsnum
  conversions :: jsnum

text \<open>
  The derived metrics of \<^verbatim>\<open>GET /api/metrics/:originId\<close>, expression by expression:
  \<^verbatim>\<open>Math.floor(sessions * 0.7)\<close>,
  \<^verbatim>\<open>sessions > 0 ? Math.floor(pageviews / sessions) : 0\<close> and
  \<^verbatim>\<open>sessions > 0 ? Math.floor((1 - (avgSession / pageviews)) * 100) : 0\<close>.
\<close>

text \<open>
  The literal \<^verbatim>\<open>0.7\<close> denotes the double nearest to 7/10, which is
  \<open>3152519739159347 / 2 ^ 52\<close>.
\<close>

definition seven_tenths :: jsnum where
  "seven_tenths = Fin (3152519739159347 / 4503599627370496)"

definition calc_visitors :: "jsnum \<Rightarrow> jsnum" where
  "calc_visitors sess = js_floor (js_mul sess seven_tenths)"

definition calc_avgSession :: "jsnum \<Rightarrow> jsnum \<Rightarrow> jsnum" where
  "calc_avgSession pv sess =
     (if js_gt sess (Fin 0) then js_floor (js_div pv sess) else Fin 0)"

definition calc_bounceRate :: "jsnum \<Rightarrow> jsnum \<Rightarrow> jsnum" where
  "calc_bounceRate pv sess =
     (if js_gt sess (Fin 0)
      then js_floor (js_mul (js_sub (Fin 1) (js_div (calc_avgSession pv sess) pv)) (Fin 100))
      else Fin 0)"

text \<open>
  The metrics part of the handler's response (the time series and the top pages are
  not modelled). The values are the ones handed to \<^verbatim>\<open>res.json\<close>, which writes a
  \<^verbatim>\<open>NaN\<close> as \<^verbatim>\<open>null\<close>.
\<close>

definition get_metrics :: "storage \<Rightarrow> string \<Rightarrow> int \<Rightarrow> metrics option" where
  "get_metrics db origin_id now =
     (let events = getEventsByOrigin db origin_id (Some 1000)
      in case (type_total events ''pageview'' now,
               type_total events ''session'' now,
               type_total events ''conversion'' now) of
           (Some pv, Some sess, Some conv) \<Rightarrow>
             Some \<lparr>visitors = calc_visitors sess, pageviews = pv, sessions = sess,
                   avgSession = calc_avgSession pv sess,
                   bounceRate = calc_bounceRate pv sess, conversions = conv\<rparr>
         | _ \<Rightarrow> None)"


section \<open>The live subscription broker (server/routes.ts)\<close>

text \<open>
  \<^verbatim>\<open>sseClients\<close> maps an origin id to its set of open responses. A response is
  known by a number; a set is the list of its members in insertion order, which is
  the order in which \<^verbatim>\<open>Set.forEach\<close> visits them. Whether
  \<^verbatim>\<open>client.write\<close> throws is a property of the connection, given as a predicate.
  \<^verbatim>\<open>JSON.stringify\<close> of the snapshot is a parameter.
\<close>

type_synonym clients = "string \<Rightarrow> nat list option"

datatype effect =
    Stringified
  | Wrote nat string
  | WriteThrew nat
  | ConsoleError

definition frame :: "string \<Rightarrow> string" where
  "frame data = ''data: '' @ data @ [CHR 0x0A, CHR 0x0A]"

text \<open>
  The body of \<^verbatim>\<open>clients.forEach\<close>: the first list is what is left to visit, the
  second the current set. Deleting the member being visited does not disturb the
  visit of the others.
\<close>

fun forEach_client :: "string \<Rightarrow> (nat \<Rightarrow> bool) \<Rightarrow> nat list \<Rightarrow> nat list \<Rightarrow> nat list \<times> effect list" where
  "forEach_client data throws [] members = (members, [])"
| "forEach_client data throws (client # rest) members =
     (if throws client
      then (let (members', effects) = forEach_client data throws rest (removeAll client members)
            in (members', WriteThrew client # ConsoleError # effects))
      else (let (members', effects) = forEach_client data throws rest members
            in (members', Wrote client (frame data) # effects)))"

definition broadcastMetricsUpdate ::
  "(jsval \<Rightarrow> string) \<Rightarrow> (nat \<Rightarrow> bool) \<Rightarrow> clients \<Rightarrow> string \<Rightarrow> jsval \<Rightarrow> clients \<times> effect list" where
  "broadcastMetricsUpdate stringify throws sseClients origin_id snapshot =
     (case sseClients origin_id of
        None \<Rightarrow> (sseClients, [])
      | Some members \<Rightarrow>
          (let data = stringify snapshot;
               (members', effects) = forEach_client data throws members members
           in (sseClients(origin_id \<mapsto> members'), Stringified # effects)))"



section \<open>The collection endpoint (server/routes.ts)\<close>

text \<open>
  What the handler takes from its libraries: the checks of
  \<^verbatim>\<open>z.string().datetime()\<close> and \<^verbatim>\<open>z.number()\<close> (zod is not among the
  sources), and the reading of a date string by \<^verbatim>\<open>new Date\<close>.
\<close>

record platform =
  z_datetime :: "string \<Rightarrow> bool"
  z_number :: "jsnum \<Rightarrow> bool"
  parse_date :: "string \<Rightarrow> int"

record collect_body =
  body_originToken :: string
  body_timestamp :: string
  body_page :: string
  body_eventType :: string
  body_value :: "jsnum option"
  body_metadata :: jsval

definition string_field :: "(string \<times> jsval) list \<Rightarrow> string \<Rightarrow> string option" where
  "string_field kvs k = (case map_of kvs k of Some (Str s) \<Rightarrow> Some s | _ \<Rightarrow> None)"

text \<open>
  \<^verbatim>\<open>z.number().optional()\<close>: the outer \<open>None\<close> is a rejected field, \<open>Some None\<close>
  an absent one.
\<close>

definition optional_number :: "platform \<Rightarrow> (string \<times> jsval) list \<Rightarrow> string \<Rightarrow> jsnum option option" where
  "optional_number pf kvs k =
     (case map_of kvs k of
        None \<Rightarrow> Some None
      | Some Undefined \<Rightarrow> Some None
      | Some (Num n) \<Rightarrow> (if z_number pf n then Some (Some n) else None)
      | Some v \<Rightarrow> None)"

definition any_field :: "(string \<times> jsval) list \<Rightarrow> string \<Rightarrow> jsval" where
  "any_field kvs k = (case map_of kvs k of None \<Rightarrow> Undefined | Some v \<Rightarrow> v)"

text \<open>\<^verbatim>\<open>schema.parse(req.body)\<close>; \<open>None\<close> is the thrown validation error.\<close>

definition schema_parse :: "platform \<Rightarrow> jsval \<Rightarrow> collect_body option" where
  "schema_parse pf req_body =
     (case req_body of
        Obj kvs \<Rightarrow>
          (case (string_field kvs ''originToken'', string_field kvs ''timestamp'',
                 string_field kvs ''page'', string_field kvs ''eventType'',
                 optional_number pf kvs ''value'') of
             (Some tok, Some ts, Some pg, Some ty, Some val) \<Rightarrow>
               (if z_datetime pf ts \<and> ty \<in> set [''pageview'', ''session'', ''conversion'', ''event'']
                then Some \<lparr>body_originToken = tok, body_timestamp = ts, body_page = pg,
                           body_eventType = ty, body_value = val,
                           body_metadata = any_field kvs ''metadata''\<rparr>
                else None)
           | _ \<Rightarrow> None)
      | _ \<Rightarrow> None)"

text \<open>The \<^verbatim>\<open>originToken\<close> that a request carries, whatever else it holds.\<close>

definition request_token :: "jsval \<Rightarrow> jsval" where
  "request_token req_body = (case req_body of Obj kvs \<Rightarrow> any_field kvs ''originToken'' | _ \<Rightarrow> Undefined)"

text \<open>\<^verbatim>\<open>body.value || 1\<close>\<close>

definition value_or_1 :: "jsnum option \<Rightarrow> jsnum" where
  "value_or_1 v = (case v of None \<Rightarrow> Fin 1 | Some n \<Rightarrow> (if truthy (Num n) then n else Fin 1))"

record reply =
  status :: nat
  body :: jsval

text \<open>
  The handler of \<^verbatim>\<open>POST /api/collect\<close>. It returns the response, the store
  after the request, and the origin for which a recomputation was handed to
  \<^verbatim>\<open>setImmediate\<close>, if one was.
\<close>

definition collect :: "platform \<Rightarrow> storage \<Rightarrow> int \<Rightarrow> jsval \<Rightarrow> reply \<times> storage \<times> string option" where
  "collect pf db now req_body =
     (case schema_parse pf req_body of
        None \<Rightarrow>
          (\<lparr>status = 400, body = Obj [(''error'', Str ''Invalid request'')]\<rparr>, db, None)
      | Some b \<Rightarrow>
          (case getOriginByToken db (body_originToken b) of
             None \<Rightarrow>
               (\<lparr>status = 401, body = Obj [(''error'', Str ''Invalid origin token'')]\<rparr>, db, None)
           | Some origin \<Rightarrow>
               (case getActiveKey db (oid origin) of
                  None \<Rightarrow>
                    (\<lparr>status = 500,
                      body = Obj [(''error'', Str ''No encryption key configured'')]\<rparr>, db, None)
                | Some key \<Rightarrow>
                    (let val = value_or_1 (body_value b);
                         cipher = encryptValue val (publicKey key) now;
                         db' = createEncryptedEvent db
                                 \<lparr>originId = oid origin,
                                  timestamp = parse_date pf (body_timestamp b),
                                  page = body_page b, eventType = body_eventType b,
                                  cipherBlob = cipher,
                                  metadata = js_or (body_metadata b) Null\<rparr>
                     in (\<lparr>status = 202,
                          body = Obj [(''accepted'', Bool True), (''encrypted'', Bool True),
                                      (''realtime'', Bool True),
                                      (''message'', Str ''Event encrypted and processed'')]\<rparr>,
                         db', Some (oid origin))))))"

text \<open>
  The callback handed to \<^verbatim>\<open>setImmediate\<close>: it recomputes the metrics of the origin
  and broadcasts them. It is the only caller of \<^verbatim>\<open>broadcastMetricsUpdate\<close>.
\<close>

definition live_snapshot :: "encryptedEvent list \<Rightarrow> int \<Rightarrow> jsval option" where
  "live_snapshot events now =
     (case (type_total events ''pageview'' now,
            type_total events ''session'' now,
            type_total events ''conversion'' now) of
        (Some pv, Some sess, Some conv) \<Rightarrow>
          Some (Obj [(''metrics'',
                      Obj [(''visitors'', Num (calc_visitors sess)), (''pageviews'', Num pv),
                           (''sessions'', Num sess),
                           (''avgSession'', Num (calc_avgSession pv sess)),
                           (''conversions'', Num conv), (''encrypted'', Bool True)]),
                     (''timestamp'', Num (Fin (of_int now)))])
      | _ \<Rightarrow> None)"

definition recompute_and_broadcast ::
  "(jsval \<Rightarrow> string) \<Rightarrow> (nat \<Rightarrow> bool) \<Rightarrow> storage \<Rightarrow> clients \<Rightarrow> string \<Rightarrow> int
     \<Rightarrow> (clients \<times> effect list) option" where
  "recompute_and_broadcast stringify throws db sseClients origin_id now =
     (case live_snapshot (getEventsByOrigin db origin_id (Some 1000)) now of
        None \<Rightarrow> None
      | Some snapshot \<Rightarrow>
          Some (broadcastMetricsUpdate stringify throws sseClients origin_id snapshot))"

text \<open>
  One request to the endpoint, with what follows from it: the response, the store,
  the subscriber map and the effects of the broadcast, if one was scheduled (and
  stayed inside the numeric fragment).
\<close>

definition collect_request ::
  "platform \<Rightarrow> (jsval \<Rightarrow> string) \<Rightarrow> (nat \<Rightarrow> bool) \<Rightarrow> storage \<Rightarrow> clients \<Rightarrow> int \<Rightarrow> jsval
     \<Rightarrow> reply \<times> storage \<times> clients \<times> effect list" where
  "collect_request pf stringify throws db sseClients now req_body =
     (case collect pf db now req_body of
        (res, db', None) \<Rightarrow> (res, db', sseClients, [])
      | (res, db', Some origin_id) \<Rightarrow>
          (case recompute_and_broadcast stringify throws db' sseClients origin_id now of
             None \<Rightarrow> (res, db', sseClients, [])
           | Some (sseClients', effects) \<Rightarrow> (res, db', sseClients', effects)))"


section \<open>The client batching agent (public/fhe-analytics.js)\<close>

text \<open>The constants of \<^verbatim>\<open>CONFIG\<close>.\<close>

definition batchSize :: nat where "batchSize = 5"
definition batchTimeout :: int where "batchTimeout = 3000"
definition retryAttempts :: nat where "retryAttempts = 3"
definition retryDelay :: nat where "retryDelay = 1000"

text \<open>
  A queued event. The time stamp is the clock reading of the call (the source keeps
  its ISO string); the fields that \<^verbatim>\<open>queueEvent\<close> adds to the metadata from the
  browser (session id, referrer, user agent, screen size) are not modelled.
\<close>

record tracked_event =
  ev_originToken :: string
  ev_timestamp :: int
  ev_page :: string
  ev_eventType :: string
  ev_value :: jsval
  ev_metadata :: jsval

text \<open>
  The agent, together with the part of the browser it acts on: the table of timers
  that are scheduled and have neither fired nor been cleared (handle and due time),
  the next handle \<^verbatim>\<open>setTimeout\<close> will return (handles are positive, hence truthy),
  and the log of the flushes, each with the events it handed to \<^verbatim>\<open>sendEvent\<close>.
\<close>

record agent =
  originToken :: string
  pathname :: string
  eventQueue :: "tracked_event list"
  batchTimer :: "nat option"
  pending :: "(nat \<times> int) list"
  next_handle :: nat
  dispatched :: "tracked_event list list"

definition setTimeout :: "agent \<Rightarrow> int \<Rightarrow> int \<Rightarrow> agent \<times> nat" where
  "setTimeout a now delay =
     (a\<lparr>pending := pending a @ [(next_handle a, now + delay)],
        next_handle := Suc (next_handle a)\<rparr>, next_handle a)"

definition clearTimeout :: "agent \<Rightarrow> nat \<Rightarrow> agent" where
  "clearTimeout a h = a\<lparr>pending := filter (\<lambda>p. fst p \<noteq> h) (pending a)\<rparr>"

definition flush :: "agent \<Rightarrow> agent" where
  "flush a =
     (if length (eventQueue a) = 0 then a
      else (let events = eventQueue a;
                a1 = a\<lparr>eventQueue := []\<rparr>;
                a2 = (case batchTimer a1 of
                        None \<Rightarrow> a1
                      | Some h \<Rightarrow> (clearTimeout a1 h)\<lparr>batchTimer := None\<rparr>)
            in a2\<lparr>dispatched := dispatched a2 @ [events]\<rparr>))"

definition queueEvent :: "agent \<Rightarrow> int \<Rightarrow> string \<Rightarrow> jsval \<Rightarrow> jsval \<Rightarrow> agent" where
  "queueEvent a now ty val meta =
     (let event = \<lparr>ev_originToken = originToken a, ev_timestamp = now, ev_page = pathname a,
                   ev_eventType = ty, ev_value = val, ev_metadata = meta\<rparr>;
          a1 = a\<lparr>eventQueue := eventQueue a @ [event]\<rparr>;
          a2 = (case batchTimer a1 of None \<Rightarrow> a1 | Some h \<Rightarrow> clearTimeout a1 h)
      in if length (eventQueue a2) \<ge> batchSize
         then flush a2
         else (let (a3, h) = setTimeout a2 now batchTimeout in a3\<lparr>batchTimer := Some h\<rparr>))"

text \<open>
  The public \<^verbatim>\<open>track\<close> is \<^verbatim>\<open>trackEvent\<close>: an event of type \<^verbatim>\<open>event\<close> and
  value 1, with \<^verbatim>\<open>{ eventName, ...metadata }\<close> as metadata (a property of the
  given metadata wins over the name; the spread of a value that is no object adds
  nothing here).
\<close>

fun spread :: "jsval \<Rightarrow> (string \<times> jsval) list" where
  "spread (Obj kvs) = kvs"
| "spread v = []"

definition trackEvent :: "agent \<Rightarrow> int \<Rightarrow> string \<Rightarrow> jsval \<Rightarrow> agent" where
  "trackEvent a now eventName meta =
     queueEvent a now ''event'' (Num (Fin 1))
       (Obj (spread meta @ [(''eventName'', Str eventName)]))"

text \<open>
  The browser's timer loop up to time \<open>t\<close>: as long as the timer that is due first
  is due by \<open>t\<close>, it leaves the table and its callback, \<^verbatim>\<open>() => this.flush()\<close>,
  runs.
\<close>

fun earliest :: "(nat \<times> int) list \<Rightarrow> (nat \<times> int) option" where
  "earliest [] = None"
| "earliest (p # ps) =
     (case earliest ps of
        None \<Rightarrow> Some p
      | Some q \<Rightarrow> (if snd p \<le> snd q then Some p else Some q))"

definition fire :: "agent \<Rightarrow> nat \<Rightarrow> agent" where
  "fire a h = flush (clearTimeout a h)"

function run_timers :: "int \<Rightarrow> agent \<Rightarrow> agent" where
  "run_timers t a =
     (case earliest (pending a) of
        None \<Rightarrow> a
      | Some (h, due) \<Rightarrow> (if due \<le> t then run_timers t (fire a h) else a))"
  by pat_completeness auto

termination run_timers
proof (relation "measure (\<lambda>(t, a). length (pending a))")
  show "wf (measure (\<lambda>(t, a). length (pending a)))" by simp
next
  fix t :: int and a :: agent and x2 :: "nat \<times> int" and h :: nat and due :: int
  assume e: "earliest (pending a) = Some x2" and x: "(h, due) = x2" and "due \<le> t"
  have mem: "earliest ps = Some q \<Longrightarrow> q \<in> set ps" for ps :: "(nat \<times> int) list" and q
    by (induction ps arbitrary: q) (auto split: option.splits if_splits)
  have "(h, due) \<in> set (pending a)" using mem [OF e] x by simp
  then have lt: "length (filter (\<lambda>p. fst p \<noteq> h) (pending a)) < length (pending a)"
    by (intro length_filter_less [where x = "(h, due)"]) auto
  have le: "length (pending (flush b)) \<le> length (pending b)" for b
    by (simp add: flush_def Let_def clearTimeout_def split: option.splits)
  have "length (pending (fire a h)) \<le> length (pending (clearTimeout a h))"
    unfolding fire_def by (rule le)
  with lt show "((t, fire a h), (t, a)) \<in> measure (\<lambda>(t, a). length (pending a))"
    by (simp add: clearTimeout_def)
qed

text \<open>A call of \<^verbatim>\<open>track\<close> at time \<open>t\<close>, after the timers due by then.\<close>

definition track_at :: "agent \<Rightarrow> int \<times> string \<times> jsval \<Rightarrow> agent" where
  "track_at a call =
     (case call of (t, eventName, meta) \<Rightarrow> trackEvent (run_timers t a) t eventName meta)"

text \<open>The event that a call of \<^verbatim>\<open>track\<close> puts on the queue of agent \<open>a\<close>.\<close>

definition event_of :: "agent \<Rightarrow> int \<times> string \<times> jsval \<Rightarrow> tracked_event" where
  "event_of a call =
     (case call of (t, eventName, meta) \<Rightarrow>
        \<lparr>ev_originToken = originToken a, ev_timestamp = t, ev_page = pathname a,
         ev_eventType = ''event'', ev_value = Num (Fin 1),
         ev_metadata = Obj (spread meta @ [(''eventName'', Str eventName)])\<rparr>)"

text \<open>
  The agent as the constructor leaves it, and the two events that \<^verbatim>\<open>init\<close> queues
  by itself once the (placeholder) key fetch has resolved.
\<close>

definition new_agent :: "string \<Rightarrow> string \<Rightarrow> agent" where
  "new_agent tok path =
     \<lparr>originToken = tok, pathname = path, eventQueue = [], batchTimer = None,
      pending = [], next_handle = 1, dispatched = []\<rparr>"

definition trackPageview :: "agent \<Rightarrow> int \<Rightarrow> agent" where
  "trackPageview a now = queueEvent a now ''pageview'' (Num (Fin 1)) (Obj [])"

definition trackSession :: "agent \<Rightarrow> int \<Rightarrow> agent" where
  "trackSession a now = queueEvent a now ''session'' (Num (Fin 1)) (Obj [])"

definition init :: "agent \<Rightarrow> int \<Rightarrow> agent" where
  "init a now = trackSession (trackPageview a now) now"

text \<open>
  What holds of the timer table in every state the agent reaches: at most one timer
  is scheduled, it is the one \<^verbatim>\<open>batchTimer\<close> names, and it is there only while
  the queue is not empty.
\<close>

definition timer_inv :: "agent \<Rightarrow> bool" where
  "timer_inv a =
     (case pending a of
        [] \<Rightarrow> True
      | [p] \<Rightarrow> batchTimer a = Some (fst p) \<and> eventQueue a \<noteq> []
      | _ \<Rightarrow> False)"

text \<open>
  Delivery of one event. The network is a function from the attempt number to what
  \<^verbatim>\<open>fetch\<close> does on that attempt; a response that is not \<^verbatim>\<open>ok\<close> is thrown
  and lands in the same \<^verbatim>\<open>catch\<close> as a rejected fetch. The result is what the
  call does, in order, with every later attempt it schedules.
\<close>

datatype fetch_outcome = Ok | NotOk nat | Rejected

datatype send_action =
    Fetch tracked_event nat
  | LogSent
  | LogFailed
  | Wait nat

function sendEvent :: "(nat \<Rightarrow> fetch_outcome) \<Rightarrow> tracked_event \<Rightarrow> nat \<Rightarrow> send_action list" where
  "sendEvent net event attempt =
     Fetch event attempt #
       (case net attempt of
          Ok \<Rightarrow> [LogSent]
        | _ \<Rightarrow> LogFailed #
            (if attempt < retryAttempts
             then Wait (retryDelay * attempt) # sendEvent net event (attempt + 1)
             else []))"
  by pat_completeness auto

termination sendEvent
  by (relation "measure (\<lambda>(net, event, attempt). retryAttempts - attempt)") auto

text \<open>The two recursive equations are unfolded by hand.\<close>

declare sendEvent.simps [simp del]

declare run_timers.simps [simp del]

fun fetches :: "send_action list \<Rightarrow> (tracked_event \<times> nat) list" where
  "fetches [] = []"
| "fetches (Fetch e n # as) = (e, n) # fetches as"
| "fetches (a # as) = fetches as"


section \<open>Rounding to a double\<close>

lemma round_double_zero [simp]: "round_double 0 = Fin 0"
  by (simp add: round_double_def)

lemma round_double_one: "round_double 1 = Fin 1"
  by (simp add: round_double_def exponent_def pow2_def round_half_even_def bit_length.simps Let_def)

lemma round_double_two: "round_double 2 = Fin 2"
  by (simp add: round_double_def exponent_def pow2_def round_half_even_def bit_length.simps Let_def)

lemma round_double_five_halves: "round_double (5 / 2) = Fin (5 / 2)"
  by code_simp

text \<open>The literal \<^verbatim>\<open>0.7\<close>: 7/10 rounds to it, and it is a double.\<close>

lemma round_double_seven_tenths: "round_double (7 / 10) = seven_tenths"
  unfolding seven_tenths_def by code_simp

lemma seven_tenths_double:
  "round_double (3152519739159347 / 4503599627370496)
   = Fin (3152519739159347 / 4503599627370496)"
  by code_simp

text \<open>A tie goes to the even neighbour: \<open>2 ^ 53 + 1\<close> is \<open>2 ^ 53\<close>.\<close>

lemma add_ties_to_even:
  "js_add (Fin 9007199254740992) (Fin 1) = Fin 9007199254740992"
proof -
  have "\<lfloor>9007199254740993 / 2 :: rat\<rfloor> = 4503599627370496"
    by (simp add: floor_eq_iff)
  then show ?thesis
    by (simp add: round_double_def exponent_def pow2_def round_half_even_def
        bit_length.simps Let_def)
qed

text \<open>Powers of two from \<open>2 ^ 52\<close> on: doubles up to \<open>2 ^ 1023\<close>, overflow beyond.\<close>

lemma bit_length_pow2: "bit_length (2 ^ n) = Suc n"
proof (induction n)
  case 0
  show ?case by (simp add: bit_length.simps [of "Suc 0"] bit_length.simps [of 0])
next
  case (Suc n)
  have "bit_length (2 ^ Suc n) = Suc (bit_length (2 ^ Suc n div 2))"
    by (subst bit_length.simps) simp
  then show ?case using Suc by simp
qed

lemma exponent_pow2: "exponent (2 ^ n) = int n"
proof -
  have "\<lfloor>(2::rat) ^ n\<rfloor> = 2 ^ n"
    by (metis floor_of_int of_int_numeral of_int_power)
  then show ?thesis by (simp add: exponent_def nat_power_eq bit_length_pow2)
qed

lemma round_half_even_int: "round_half_even (of_int k) = k"
  by (simp add: round_half_even_def)

lemma round_double_pow2:
  assumes "52 \<le> n"
  shows "round_double (2 ^ n) = (if n < 1024 then Fin (2 ^ n) else PInf)"
proof -
  have q: "pow2 (max (exponent \<bar>2 ^ n\<bar>) (- 1022) - 52) = 2 ^ (n - 52)"
    using assms by (simp add: exponent_pow2 pow2_def nat_diff_distrib')
  have d: "(2::rat) ^ n / 2 ^ (n - 52) = of_int (2 ^ 52)"
    using assms by (simp add: power_diff)
  have p: "(2::rat) ^ 52 * 2 ^ (n - 52) = 2 ^ n"
    using assms by (metis le_add_diff_inverse power_add)
  have r: "of_int (round_half_even ((2::rat) ^ n / 2 ^ (n - 52))) * 2 ^ (n - 52) = (2::rat) ^ n"
    unfolding d round_half_even_int using p by simp
  have c: "pow2 1024 \<le> \<bar>(2::rat) ^ n\<bar> \<longleftrightarrow> 1024 \<le> n"
    by (simp add: pow2_def del: power_numeral)
  show ?thesis
    unfolding round_double_def Let_def q r c
    by (simp add: signed_inf_def)
qed

text \<open>\<open>2 ^ 1023\<close> is a double, and \<open>2 ^ 1023 + 2 ^ 1023\<close> overflows.\<close>

lemma add_overflow:
  "js_add (Fin 0) (Fin (2 ^ 1023)) = Fin (2 ^ 1023) \<and>
   js_add (Fin (2 ^ 1023)) (Fin (2 ^ 1023)) = PInf"
proof -
  have "(2::rat) ^ 1023 + 2 ^ 1023 = 2 ^ 1024" by simp
  then show ?thesis
    using round_double_pow2 [of 1023] round_double_pow2 [of 1024]
    by (simp del: power_numeral)
qed

section \<open>The codec: aggregation and decoding\<close>

lemma decrypt_encrypt_finite: "decryptValue (encryptValue (Fin a) pk t) k = Num (Fin a)"
  by (simp add: decryptValue_def encryptValue_def js_or_def)

text \<open>
  The accumulator of \<^verbatim>\<open>reduce\<close> over encodings of finite values is the
  accumulator of the additions of the values themselves.
\<close>

lemma fold_sum_step_finite:
  "list_all (\<lambda>p. is_finite (fst p)) vs \<Longrightarrow>
   foldl sum_step (Some acc) (encode_all pk vs) = Some (foldl js_add acc (map fst vs))"
proof (induction vs arbitrary: acc)
  case Nil
  then show ?case by (simp add: encode_all_def)
next
  case (Cons p vs)
  obtain v t where p: "p = (v, t)" by (cases p)
  with Cons.prems obtain b where v: "v = Fin b" by (cases v) auto
  have "foldl sum_step (Some acc) (encode_all pk (p # vs))
        = foldl sum_step (Some (js_add acc (Fin b))) (encode_all pk vs)"
    by (simp add: encode_all_def p v sum_step_def decrypt_encrypt_finite)
  also have "\<dots> = Some (foldl js_add (js_add acc (Fin b)) (map fst vs))"
    using Cons.IH Cons.prems by simp
  finally show ?case by (simp add: p v)
qed

text \<open>
  Claim C1, as amended. For every non-empty list of finite numbers whose sum, added
  from left to right as JavaScript adds, is finite, each number encoded by
  \<^verbatim>\<open>encryptValue\<close> at some clock reading, decoding the \<^verbatim>\<open>homomorphicSum\<close> of
  the encodings gives that sum.
\<close>

theorem codec_homomorphism_finite:
  assumes "vs \<noteq> []" and "list_all (\<lambda>p. is_finite (fst p)) vs"
    and "is_finite (js_sum (map fst vs))"
  shows "decode_sum (homomorphicSum (encode_all pk vs) now) = Some (Num (js_sum (map fst vs)))"
proof -
  from assms(3) obtain q where q: "js_sum (map fst vs) = Fin q"
    by (cases "js_sum (map fst vs)") auto
  have "foldl sum_step (Some (Fin 0)) (encode_all pk vs) = Some (Fin q)"
    using fold_sum_step_finite [OF assms(2), of "Fin 0" pk] q by (simp add: js_sum_def)
  then show ?thesis
    by (simp add: decode_sum_def homomorphicSum_def decryptValue_def js_or_def q)
qed

theorem codec_homomorphism_finite_witness:
  "[(Fin 2, 10), (Fin (1/2), 11::int)] \<noteq> [] \<and>
   list_all (\<lambda>p. is_finite (fst p)) [(Fin 2, 10), (Fin (1/2), 11::int)] \<and>
   is_finite (js_sum (map fst [(Fin 2, 10), (Fin (1/2), 11::int)])) \<and>
   decode_sum (homomorphicSum (encode_all ''pk'' [(Fin 2, 10), (Fin (1/2), 11)]) 12)
     = Some (Num (Fin (5/2)))"
  using codec_homomorphism_finite [of "[(Fin 2, 10), (Fin (1/2), 11)]" "''pk''" 12]
  by (simp add: js_sum_def round_double_two round_double_five_halves)

text \<open>
  The claim as stated speaks of every list of numeric values. It fails on the list
  holding \<^verbatim>\<open>Infinity\<close>, which \<^verbatim>\<open>JSON.stringify\<close> writes as \<^verbatim>\<open>null\<close>: the sum
  is \<^verbatim>\<open>Infinity\<close>, the decoded aggregate 0. It fails on the finite list holding
  \<open>2 ^ 1023\<close> twice as well: the sum overflows to \<^verbatim>\<open>Infinity\<close>, which is written
  as \<^verbatim>\<open>null\<close> in the aggregate and decoded as 0.
\<close>

theorem codec_homomorphism_counterexample:
  "decode_sum (homomorphicSum (encode_all ''pk'' [(PInf, 10)]) 11) = Some (Num (Fin 0)) \<and>
   js_sum (map fst [(PInf, 10::int)]) = PInf \<and>
   decode_sum (homomorphicSum (encode_all ''pk'' [(Fin (2 ^ 1023), 10), (Fin (2 ^ 1023), 11)]) 12)
     = Some (Num (Fin 0)) \<and>
   js_sum (map fst [(Fin (2 ^ 1023), 10::int), (Fin (2 ^ 1023), 11)]) = PInf"
proof -
  have a: "decode_sum (homomorphicSum (encode_all ''pk'' [(PInf, 10)]) 11) = Some (Num (Fin 0))"
    by (simp add: decode_sum_def homomorphicSum_def encode_all_def sum_step_def
        decryptValue_def encryptValue_def js_or_def)
  have b: "js_sum (map fst [(PInf, 10::int)]) = PInf"
    by (simp add: js_sum_def)
  have f: "foldl js_add (Fin 0) [Fin (2 ^ 1023), Fin (2 ^ 1023)] = PInf"
    using add_overflow by (simp del: power_numeral js_add.simps)
  have d: "js_sum (map fst [(Fin (2 ^ 1023), 10::int), (Fin (2 ^ 1023), 11)]) = PInf"
    using f by (simp add: js_sum_def del: power_numeral js_add.simps)
  have "foldl sum_step (Some (Fin 0))
          (encode_all ''pk'' [(Fin (2 ^ 1023), 10), (Fin (2 ^ 1023), 11)]) = Some PInf"
    using fold_sum_step_finite
      [of "[(Fin (2 ^ 1023), 10), (Fin (2 ^ 1023), 11)]" "Fin 0" "''pk''"] f
    by (simp del: power_numeral js_add.simps)
  then have c: "decode_sum (homomorphicSum
       (encode_all ''pk'' [(Fin (2 ^ 1023), 10), (Fin (2 ^ 1023), 11)]) 12) = Some (Num (Fin 0))"
    by (simp add: decode_sum_def homomorphicSum_def decryptValue_def js_or_def
        del: power_numeral)
  from a b c d show ?thesis by blast
qed

section \<open>Decoding a malformed blob\<close>

text \<open>
  What \<^verbatim>\<open>decryptValue\<close> does on every blob that does not parse to an object with
  a numeric \<^verbatim>\<open>value\<close> field. No error is raised. The result is 0 when the blob
  does not parse, parses to something that is no object, has no \<^verbatim>\<open>value\<close>
  field, or has a falsy one; otherwise it is the \<^verbatim>\<open>value\<close> field itself.
\<close>

lemma decryptValue_cases:
  "\<not> numeric_value_field b \<Longrightarrow>
   decryptValue b k =
     (case value_field b of
        None \<Rightarrow> Num (Fin 0)
      | Some v \<Rightarrow> (if truthy v then v else Num (Fin 0)))"
proof (cases b)
  case Unparseable
  then show ?thesis by (simp add: decryptValue_def)
next
  case (Parsed d)
  then show ?thesis
    by (cases d) (simp_all add: decryptValue_def js_or_def split: option.splits)
qed

text \<open>The malformed blobs on which the result is 0, as the claim says.\<close>

lemma decryptValue_zero:
  "decryptValue Unparseable k = Num (Fin 0) \<and>
   decryptValue (Parsed Null) k = Num (Fin 0) \<and>
   decryptValue (Parsed (Obj [(''encrypted'', Bool True)])) k = Num (Fin 0) \<and>
   decryptValue (Parsed (Obj [(''value'', Null)])) k = Num (Fin 0) \<and>
   decryptValue (Parsed (Obj [(''value'', Str [])])) k = Num (Fin 0)"
  by (simp add: decryptValue_def js_or_def)

text \<open>
  Claim C9. The claim asks that \<^verbatim>\<open>decryptValue\<close> return 0 on every blob that is
  not well-formed, without raising an error. The function, declared to return a
  \<^verbatim>\<open>number\<close>, answers a parse error, a missing and a falsy \<^verbatim>\<open>value\<close> field
  with 0 but does not check the type of a truthy one: the blob
  \<^verbatim>\<open>{"value":"abc"}\<close> has no numeric \<^verbatim>\<open>value\<close> field, and is decoded, without
  an error, to the string \<^verbatim>\<open>abc\<close>.
\<close>

theorem decryptValue_string_value:
  "\<not> numeric_value_field (Parsed (Obj [(''value'', Str ''abc'')])) \<and>
   decryptValue (Parsed (Obj [(''value'', Str ''abc'')])) [] = Str ''abc'' \<and>
   decryptValue (Parsed (Obj [(''value'', Str ''abc'')])) [] \<noteq> Num (Fin 0)"
  by (simp add: decryptValue_def js_or_def)

section \<open>The derived metrics\<close>

lemma floor_seven_tenths: "\<lfloor>3152519739159347 / 4503599627370496 :: rat\<rfloor> = 0"
  by (simp add: floor_eq_iff)

text \<open>\<^verbatim>\<open>Math.floor(90 * 0.7)\<close> is 62: the product rounds to a double below 63.\<close>

lemma visitors_of_ninety: "calc_visitors (Fin 90) = Fin 62"
  unfolding calc_visitors_def seven_tenths_def by code_simp

lemma sort_key_Nil_iff: "sort_key f xs = [] \<longleftrightarrow> xs = []"
  by (metis length_0_conv length_sort)

text \<open>With no sessions both derived metrics are 0, whatever the page views.\<close>

lemma derived_zero_sessions:
  "calc_avgSession pv (Fin 0) = Fin 0 \<and> calc_bounceRate pv (Fin 0) = Fin 0"
  by (simp add: calc_avgSession_def calc_bounceRate_def)

text \<open>
  With sessions but no page views, no error is raised, the average is 0, and the
  bounce rate is \<^verbatim>\<open>Math.floor((1 - 0 / 0) * 100)\<close>, that is \<^verbatim>\<open>NaN\<close>.
\<close>

lemma derived_zero_pageviews:
  "0 < s \<Longrightarrow> calc_avgSession (Fin 0) (Fin s) = Fin 0 \<and> calc_bounceRate (Fin 0) (Fin s) = NaN"
  by (simp add: calc_avgSession_def calc_bounceRate_def js_sub_def)

text \<open>
  Claim C2. The claim asks that \<^verbatim>\<open>avgSession\<close> and \<^verbatim>\<open>bounceRate\<close> be 0 when
  the sessions or the page views are 0. The handler guards both divisions by
  \<^verbatim>\<open>sessions > 0\<close>, also the one by \<^verbatim>\<open>pageviews\<close>: for an origin whose window
  holds one session event and no page view it answers, without raising an error,
  with \<^verbatim>\<open>avgSession\<close> 0 and \<^verbatim>\<open>bounceRate\<close> \<^verbatim>\<open>NaN\<close>.
\<close>

theorem metrics_one_session_no_pageview:
  "get_metrics
     \<lparr>origins = [], fheKeys = [],
      encryptedEvents =
        [\<lparr>originId = ''o1'', timestamp = 1000, page = ''/'', eventType = ''session'',
          cipherBlob = encryptValue (Fin 1) ''pk'' 1000, metadata = Null\<rparr>]\<rparr>
     ''o1'' 2000
   = Some \<lparr>visitors = Fin 0, pageviews = Fin 0, sessions = Fin 1, avgSession = Fin 0,
           bounceRate = NaN, conversions = Fin 0\<rparr>"
  by (simp add: get_metrics_def getEventsByOrigin_def order_desc_def type_total_def
      type_cipher_def zero_cipher_def homomorphicSum_def sum_step_def decryptValue_def
      encryptValue_def js_or_def calc_visitors_def calc_avgSession_def calc_bounceRate_def
      js_sub_def round_double_one seven_tenths_def seven_tenths_double floor_seven_tenths)

lemma type_total_empty: "type_total [] ty now = Some (Fin 0)"
  by (simp add: type_total_def type_cipher_def zero_cipher_def decryptValue_def js_or_def)

text \<open>The window of an origin is empty exactly when the store has no event of it.\<close>

lemma window_empty_iff:
  "getEventsByOrigin db origin_id (Some 1000) = [] \<longleftrightarrow>
   (\<forall>e \<in> set (encryptedEvents db). originId e \<noteq> origin_id)"
  by (simp add: getEventsByOrigin_def order_desc_def sort_key_Nil_iff filter_empty_conv)

text \<open>
  Claim C8. For an origin whose event window is empty, the metrics handler returns
  a result, and all six metrics in it are 0.
\<close>

theorem metrics_empty_window:
  "getEventsByOrigin db origin_id (Some 1000) = [] \<Longrightarrow>
   get_metrics db origin_id now
   = Some \<lparr>visitors = Fin 0, pageviews = Fin 0, sessions = Fin 0, avgSession = Fin 0,
           bounceRate = Fin 0, conversions = Fin 0\<rparr>"
  by (simp add: get_metrics_def type_total_empty calc_visitors_def calc_avgSession_def
      calc_bounceRate_def seven_tenths_def)

theorem metrics_empty_window_witness:
  "getEventsByOrigin
     \<lparr>origins = [], fheKeys = [],
      encryptedEvents =
        [\<lparr>originId = ''other'', timestamp = 1000, page = ''/'', eventType = ''session'',
          cipherBlob = encryptValue (Fin 1) ''pk'' 1000, metadata = Null\<rparr>]\<rparr>
     ''o1'' (Some 1000) = [] \<and>
   get_metrics
     \<lparr>origins = [], fheKeys = [],
      encryptedEvents =
        [\<lparr>originId = ''other'', timestamp = 1000, page = ''/'', eventType = ''session'',
          cipherBlob = encryptValue (Fin 1) ''pk'' 1000, metadata = Null\<rparr>]\<rparr>
     ''o1'' 2000
   = Some \<lparr>visitors = Fin 0, pageviews = Fin 0, sessions = Fin 0, avgSession = Fin 0,
           bounceRate = Fin 0, conversions = Fin 0\<rparr>"
  using metrics_empty_window [of "\<lparr>origins = [], fheKeys = [],
      encryptedEvents =
        [\<lparr>originId = ''other'', timestamp = 1000, page = ''/'', eventType = ''session'',
          cipherBlob = encryptValue (Fin 1) ''pk'' 1000, metadata = Null\<rparr>]\<rparr>" "''o1''" 2000]
  by (simp add: getEventsByOrigin_def order_desc_def)


section \<open>The recent window of the event store\<close>

lemma order_desc_sorted:
  "sorted_wrt (\<lambda>a b. col b \<le> col a) (order_desc col rows)"
proof -
  have "sorted (map (\<lambda>r. - col r) (order_desc col rows))"
    unfolding order_desc_def by (rule sorted_sort_key)
  then show ?thesis
    by (simp add: sorted_map)
qed

lemma order_desc_set: "set (order_desc col rows) = set rows"
  by (simp add: order_desc_def)

lemma order_desc_length: "length (order_desc col rows) = length rows"
  by (simp add: order_desc_def)

text \<open>
  Claim C6, as amended. \<^verbatim>\<open>getEventsByOrigin\<close> returns events of the origin from
  the store, newest first, as many as the limit allows and no more; an event of the
  origin that is left out is no newer than any that is returned; and when the limit
  is omitted the bound is 100 (the claim says 1000, which is what the two route
  handlers pass explicitly).
\<close>

theorem recent_window:
  "sorted_wrt (\<lambda>a b. timestamp b \<le> timestamp a) (getEventsByOrigin db origin_id limit) \<and>
   length (getEventsByOrigin db origin_id limit)
     = min (case limit of None \<Rightarrow> 100 | Some n \<Rightarrow> n)
           (length (filter (\<lambda>e. originId e = origin_id) (encryptedEvents db))) \<and>
   (\<forall>e \<in> set (getEventsByOrigin db origin_id limit).
      originId e = origin_id \<and> e \<in> set (encryptedEvents db)) \<and>
   (\<forall>e \<in> set (encryptedEvents db).
      originId e = origin_id \<and> e \<notin> set (getEventsByOrigin db origin_id limit) \<longrightarrow>
      (\<forall>w \<in> set (getEventsByOrigin db origin_id limit). timestamp e \<le> timestamp w)) \<and>
   getEventsByOrigin db origin_id None = getEventsByOrigin db origin_id (Some 100)"
proof -
  define n where "n = (case limit of None \<Rightarrow> (100::nat) | Some n \<Rightarrow> n)"
  define rows where
    "rows = order_desc timestamp (filter (\<lambda>e. originId e = origin_id) (encryptedEvents db))"
  have w: "getEventsByOrigin db origin_id limit = take n rows"
    by (simp add: getEventsByOrigin_def n_def rows_def)
  have srt: "sorted_wrt (\<lambda>a b. timestamp b \<le> timestamp a) rows"
    unfolding rows_def by (rule order_desc_sorted)
  have rows_set: "set rows = {e \<in> set (encryptedEvents db). originId e = origin_id}"
    by (auto simp: rows_def order_desc_set)
  have 1: "sorted_wrt (\<lambda>a b. timestamp b \<le> timestamp a) (take n rows)"
    using srt by (metis append_take_drop_id sorted_wrt_append)
  have 2: "length (take n rows)
     = min n (length (filter (\<lambda>e. originId e = origin_id) (encryptedEvents db)))"
    by (simp add: rows_def order_desc_length min.commute)
  have 3: "\<forall>e \<in> set (take n rows). originId e = origin_id \<and> e \<in> set (encryptedEvents db)"
    using rows_set by (auto dest: in_set_takeD)
  have 4: "\<forall>e \<in> set (encryptedEvents db).
      originId e = origin_id \<and> e \<notin> set (take n rows) \<longrightarrow>
      (\<forall>w \<in> set (take n rows). timestamp e \<le> timestamp w)"
  proof (intro ballI impI)
    fix e w
    assume "e \<in> set (encryptedEvents db)" and "originId e = origin_id \<and> e \<notin> set (take n rows)"
      and win: "w \<in> set (take n rows)"
    then have "e \<in> set rows" and "e \<notin> set (take n rows)" using rows_set by auto
    then have "e \<in> set (drop n rows)"
      by (metis Un_iff append_take_drop_id set_append)
    moreover have "sorted_wrt (\<lambda>a b. timestamp b \<le> timestamp a) (take n rows @ drop n rows)"
      using srt by simp
    ultimately show "timestamp e \<le> timestamp w"
      using win unfolding sorted_wrt_append by blast
  qed
  have 5: "getEventsByOrigin db origin_id None = getEventsByOrigin db origin_id (Some 100)"
    by (simp add: getEventsByOrigin_def)
  from 1 2 3 4 5 show ?thesis unfolding w n_def by blast
qed

theorem recent_window_witness:
  "getEventsByOrigin
     \<lparr>origins = [], fheKeys = [],
      encryptedEvents =
        map (\<lambda>(oi, t). \<lparr>originId = oi, timestamp = t, page = ''/'', eventType = ''pageview'',
                        cipherBlob = Unparseable, metadata = Null\<rparr>)
          [(''o1'', 10), (''o2'', 40), (''o1'', 30), (''o1'', 20)]\<rparr>
     ''o1'' (Some 2)
   = map (\<lambda>(oi, t). \<lparr>originId = oi, timestamp = t, page = ''/'', eventType = ''pageview'',
                      cipherBlob = Unparseable, metadata = Null\<rparr>)
       [(''o1'', 30), (''o1'', 20)] \<and>
   sorted_wrt (\<lambda>a b. timestamp b \<le> timestamp a)
     (getEventsByOrigin
        \<lparr>origins = [], fheKeys = [],
         encryptedEvents =
           map (\<lambda>(oi, t). \<lparr>originId = oi, timestamp = t, page = ''/'', eventType = ''pageview'',
                           cipherBlob = Unparseable, metadata = Null\<rparr>)
             [(''o1'', 10), (''o2'', 40), (''o1'', 30), (''o1'', 20)]\<rparr>
        ''o1'' (Some 2))"
  using recent_window [of
      "\<lparr>origins = [], fheKeys = [],
        encryptedEvents =
          map (\<lambda>(oi, t). \<lparr>originId = oi, timestamp = t, page = ''/'', eventType = ''pageview'',
                          cipherBlob = Unparseable, metadata = Null\<rparr>)
            [(''o1'', 10), (''o2'', 40), (''o1'', 30), (''o1'', 20)]\<rparr>" "''o1''" "Some 2"]
  by (simp add: getEventsByOrigin_def order_desc_def)

text \<open>
  The claim as stated fails on a store with 101 events of one origin: without a
  limit 100 of them are returned, with the limit 1000 all 101.
\<close>

theorem default_limit_counterexample:
  "length (getEventsByOrigin
     \<lparr>origins = [], fheKeys = [],
      encryptedEvents =
        map (\<lambda>t. \<lparr>originId = ''o1'', timestamp = t, page = ''/'', eventType = ''pageview'',
                  cipherBlob = Unparseable, metadata = Null\<rparr>) [1..101]\<rparr>
     ''o1'' None) = 100 \<and>
   length (getEventsByOrigin
     \<lparr>origins = [], fheKeys = [],
      encryptedEvents =
        map (\<lambda>t. \<lparr>originId = ''o1'', timestamp = t, page = ''/'', eventType = ''pageview'',
                  cipherBlob = Unparseable, metadata = Null\<rparr>) [1..101]\<rparr>
     ''o1'' (Some 1000)) = 101"
  by (simp add: getEventsByOrigin_def order_desc_def)

section \<open>Publishing to the subscribers\<close>






text \<open>Without a registered set the function returns at once.\<close>

lemma broadcast_no_subscribers:
  "sseClients origin_id = None \<Longrightarrow>
   broadcastMetricsUpdate stringify throws sseClients origin_id snapshot = (sseClients, [])"
  by (simp add: broadcastMetricsUpdate_def)


section \<open>The collection endpoint: unknown tokens\<close>

lemma schema_parse_token:
  "schema_parse pf req = Some b \<Longrightarrow> request_token req = Str (body_originToken b)"
  by (auto simp: schema_parse_def request_token_def string_field_def any_field_def
      split: jsval.splits option.splits if_splits)

lemma getOriginByToken_None:
  "getOriginByToken db tok = None \<longleftrightarrow> (\<forall>r \<in> set (origins db). token r \<noteq> tok)"
proof -
  have "first_row rs = None \<longleftrightarrow> rs = []" for rs :: "origin list"
    by (cases rs) simp_all
  then show ?thesis by (simp add: getOriginByToken_def filter_empty_conv)
qed

text \<open>
  Claim C3, as amended. For every request to \<^verbatim>\<open>POST /api/collect\<close> whose
  \<^verbatim>\<open>originToken\<close> matches no stored origin, no event is persisted and nothing is
  broadcast to the subscribers; the response is the authentication failure 401 when
  the body passes the schema, and 400 when it does not, since the body is validated
  before the token is looked up.
\<close>

theorem collect_unknown_token:
  assumes "\<forall>r \<in> set (origins db). request_token req \<noteq> Str (token r)"
  shows "collect_request pf stringify throws db sseClients now req =
     ((if schema_parse pf req = None
       then \<lparr>status = 400, body = Obj [(''error'', Str ''Invalid request'')]\<rparr>
       else \<lparr>status = 401, body = Obj [(''error'', Str ''Invalid origin token'')]\<rparr>),
      db, sseClients, [])"
proof (cases "schema_parse pf req")
  case None
  then show ?thesis by (simp add: collect_request_def collect_def)
next
  case (Some b)
  then have "request_token req = Str (body_originToken b)" by (rule schema_parse_token)
  with assms have "getOriginByToken db (body_originToken b) = None"
    by (auto simp: getOriginByToken_None)
  with Some show ?thesis by (simp add: collect_request_def collect_def)
qed

theorem collect_unknown_token_witness:
  "request_token (Obj [(''originToken'', Str ''fhe_sk_2''), (''timestamp'', Str ''2024-01-01T00:00:00Z''),
                       (''page'', Str ''/''), (''eventType'', Str ''pageview'')]) \<noteq> Str ''fhe_sk_1'' \<and>
   collect_request \<lparr>z_datetime = (\<lambda>s. True), z_number = is_finite, parse_date = (\<lambda>s. 0)\<rparr>
     (\<lambda>v. ''{}'') (\<lambda>c. False)
     \<lparr>origins = [\<lparr>oid = ''o1'', domain = ''a.example'', ownerAddress = ''0x1'', token = ''fhe_sk_1''\<rparr>], fheKeys = [], encryptedEvents = []\<rparr>
     [''o1'' \<mapsto> [1]] 5
     (Obj [(''originToken'', Str ''fhe_sk_2''), (''timestamp'', Str ''2024-01-01T00:00:00Z''),
           (''page'', Str ''/''), (''eventType'', Str ''pageview'')])
   = (\<lparr>status = 401, body = Obj [(''error'', Str ''Invalid origin token'')]\<rparr>,
      \<lparr>origins = [\<lparr>oid = ''o1'', domain = ''a.example'', ownerAddress = ''0x1'', token = ''fhe_sk_1''\<rparr>], fheKeys = [], encryptedEvents = []\<rparr>,
      [''o1'' \<mapsto> [1]], [])"
  using collect_unknown_token [of
     "\<lparr>origins = [\<lparr>oid = ''o1'', domain = ''a.example'', ownerAddress = ''0x1'', token = ''fhe_sk_1''\<rparr>], fheKeys = [], encryptedEvents = []\<rparr>"
     "Obj [(''originToken'', Str ''fhe_sk_2''), (''timestamp'', Str ''2024-01-01T00:00:00Z''),
           (''page'', Str ''/''), (''eventType'', Str ''pageview'')]"
     "\<lparr>z_datetime = (\<lambda>s. True), z_number = is_finite, parse_date = (\<lambda>s. 0)\<rparr>"
     "\<lambda>v. ''{}''" "\<lambda>c. False" "[''o1'' \<mapsto> [1]]" 5]
  by (simp add: request_token_def any_field_def schema_parse_def string_field_def optional_number_def)

text \<open>
  The claim as stated fails on a request that carries an unknown token and nothing
  else: it is answered with 400, not 401.
\<close>

theorem collect_unknown_token_counterexample:
  "request_token (Obj [(''originToken'', Str ''fhe_sk_2'')]) \<noteq> Str ''fhe_sk_1'' \<and>
   status (fst (collect_request \<lparr>z_datetime = (\<lambda>s. True), z_number = is_finite, parse_date = (\<lambda>s. 0)\<rparr>
     (\<lambda>v. ''{}'') (\<lambda>c. False)
     \<lparr>origins = [\<lparr>oid = ''o1'', domain = ''a.example'', ownerAddress = ''0x1'', token = ''fhe_sk_1''\<rparr>], fheKeys = [], encryptedEvents = []\<rparr>
     [''o1'' \<mapsto> [1]] 5
     (Obj [(''originToken'', Str ''fhe_sk_2'')]))) = 400"
  by (simp add: request_token_def any_field_def collect_request_def collect_def schema_parse_def string_field_def optional_number_def)

section \<open>The collection endpoint: the stored value\<close>

lemma decrypt_encrypt_value_or_1:
  "(case v of None \<Rightarrow> True | Some n \<Rightarrow> is_finite n) \<Longrightarrow>
   decryptValue (encryptValue (value_or_1 v) pk t) k = Num (value_or_1 v) \<and>
   value_or_1 v \<noteq> Fin 0"
proof (cases v)
  case None
  then show ?thesis by (simp add: value_or_1_def decrypt_encrypt_finite)
next
  case (Some n)
  assume "case v of None \<Rightarrow> True | Some n \<Rightarrow> is_finite n"
  with Some obtain a where "n = Fin a" by (cases n) auto
  with Some show ?thesis by (simp add: value_or_1_def decrypt_encrypt_finite)
qed

text \<open>A value that JSON cannot write is stored as \<^verbatim>\<open>null\<close> and decodes to 0.\<close>

lemma infinite_value_decodes_to_zero:
  "decryptValue (encryptValue (value_or_1 (Some PInf)) pk t) k = Num (Fin 0)"
  by (simp add: value_or_1_def decryptValue_def encryptValue_def js_or_def)

text \<open>
  Claim C10, as amended. A request that the endpoint accepts (the body passes the
  schema, the token is known, the origin has an active key) and whose value, if
  given, is finite adds exactly one event to the store. The event decodes to 1 when
  the value was omitted or 0, to the given value otherwise, and never to 0.
\<close>

theorem collect_default_value:
  assumes "schema_parse pf req = Some b"
    and "getOriginByToken db (body_originToken b) = Some origin"
    and "getActiveKey db (oid origin) = Some key"
    and "case body_value b of None \<Rightarrow> True | Some n \<Rightarrow> is_finite n"
  shows "\<exists>ev. fst (snd (collect pf db now req)) = db\<lparr>encryptedEvents := encryptedEvents db @ [ev]\<rparr> \<and>
     status (fst (collect pf db now req)) = 202 \<and>
     (body_value b = None \<or> body_value b = Some (Fin 0) \<longrightarrow>
        decryptValue (cipherBlob ev) [] = Num (Fin 1)) \<and>
     decryptValue (cipherBlob ev) [] = Num (value_or_1 (body_value b)) \<and>
     decryptValue (cipherBlob ev) [] \<noteq> Num (Fin 0)"
proof -
  let ?ev = "\<lparr>originId = oid origin, timestamp = parse_date pf (body_timestamp b),
              page = body_page b, eventType = body_eventType b,
              cipherBlob = encryptValue (value_or_1 (body_value b)) (publicKey key) now,
              metadata = js_or (body_metadata b) Null\<rparr>"
  have c: "collect pf db now req =
     (\<lparr>status = 202,
       body = Obj [(''accepted'', Bool True), (''encrypted'', Bool True),
                   (''realtime'', Bool True),
                   (''message'', Str ''Event encrypted and processed'')]\<rparr>,
      db\<lparr>encryptedEvents := encryptedEvents db @ [?ev]\<rparr>, Some (oid origin))"
    using assms(1-3) by (simp add: collect_def createEncryptedEvent_def Let_def)
  have d: "decryptValue (cipherBlob ?ev) [] = Num (value_or_1 (body_value b))"
    and nz: "value_or_1 (body_value b) \<noteq> Fin 0"
    using decrypt_encrypt_value_or_1 [OF assms(4)] by simp_all
  have one: "body_value b = None \<or> body_value b = Some (Fin 0) \<Longrightarrow> value_or_1 (body_value b) = Fin 1"
    by (auto simp: value_or_1_def)
  have "fst (snd (collect pf db now req)) = db\<lparr>encryptedEvents := encryptedEvents db @ [?ev]\<rparr>"
    and "status (fst (collect pf db now req)) = 202"
    by (simp_all add: c)
  moreover have "body_value b = None \<or> body_value b = Some (Fin 0) \<longrightarrow>
        decryptValue (cipherBlob ?ev) [] = Num (Fin 1)"
    using d one by auto
  moreover have "decryptValue (cipherBlob ?ev) [] \<noteq> Num (Fin 0)"
    using d nz by simp
  ultimately show ?thesis using d by blast
qed

theorem collect_default_value_witness:
  "\<exists>ev. fst (snd (collect \<lparr>z_datetime = (\<lambda>s. True), z_number = is_finite, parse_date = (\<lambda>s. 0)\<rparr>
        \<lparr>origins = [\<lparr>oid = ''o1'', domain = ''a.example'', ownerAddress = ''0x1'', token = ''fhe_sk_1''\<rparr>],
         fheKeys = [\<lparr>key_originId = ''o1'', publicKey = ''pk'', keyFingerprint = ''fp'',
                     isActive = ''true'', createdAt = 1\<rparr>],
         encryptedEvents = []\<rparr> 5
        (Obj [(''originToken'', Str ''fhe_sk_1''), (''timestamp'', Str ''2024-01-01T00:00:00Z''),
              (''page'', Str ''/''), (''eventType'', Str ''pageview''), (''value'', Num (Fin 0))])))
      = \<lparr>origins = [\<lparr>oid = ''o1'', domain = ''a.example'', ownerAddress = ''0x1'', token = ''fhe_sk_1''\<rparr>],
         fheKeys = [\<lparr>key_originId = ''o1'', publicKey = ''pk'', keyFingerprint = ''fp'',
                     isActive = ''true'', createdAt = 1\<rparr>],
         encryptedEvents = [ev]\<rparr> \<and>
     decryptValue (cipherBlob ev) [] = Num (Fin 1)"
  using collect_default_value [of
      "\<lparr>z_datetime = (\<lambda>s. True), z_number = is_finite, parse_date = (\<lambda>s. 0)\<rparr>"
      "Obj [(''originToken'', Str ''fhe_sk_1''), (''timestamp'', Str ''2024-01-01T00:00:00Z''),
            (''page'', Str ''/''), (''eventType'', Str ''pageview''), (''value'', Num (Fin 0))]"
      "\<lparr>body_originToken = ''fhe_sk_1'', body_timestamp = ''2024-01-01T00:00:00Z'',
        body_page = ''/'', body_eventType = ''pageview'', body_value = Some (Fin 0),
        body_metadata = Undefined\<rparr>"
      "\<lparr>origins = [\<lparr>oid = ''o1'', domain = ''a.example'', ownerAddress = ''0x1'', token = ''fhe_sk_1''\<rparr>],
        fheKeys = [\<lparr>key_originId = ''o1'', publicKey = ''pk'', keyFingerprint = ''fp'',
                    isActive = ''true'', createdAt = 1\<rparr>],
        encryptedEvents = []\<rparr>"
      "\<lparr>oid = ''o1'', domain = ''a.example'', ownerAddress = ''0x1'', token = ''fhe_sk_1''\<rparr>"
      "\<lparr>key_originId = ''o1'', publicKey = ''pk'', keyFingerprint = ''fp'',
        isActive = ''true'', createdAt = 1\<rparr>" 5]
  by (simp add: schema_parse_def string_field_def optional_number_def any_field_def
      getOriginByToken_def getActiveKey_def order_desc_def) blast


text \<open>
  The claim as stated says that a stored event never decodes to 0. It fails on an
  accepted request whose value is \<^verbatim>\<open>Infinity\<close>, which is what \<^verbatim>\<open>JSON.parse\<close>
  makes of a literal such as \<^verbatim>\<open>1e999\<close> in the body and which \<^verbatim>\<open>z.number()\<close>
  of zod 3 lets through (it refuses \<^verbatim>\<open>NaN\<close> only): the request is answered 202 and
  the event it stores decodes to 0.
\<close>

theorem collect_default_value_counterexample:
  "status (fst (collect \<lparr>z_datetime = (\<lambda>s. True), z_number = (\<lambda>n. n \<noteq> NaN), parse_date = (\<lambda>s. 0)\<rparr>
        \<lparr>origins = [\<lparr>oid = ''o1'', domain = ''a.example'', ownerAddress = ''0x1'', token = ''fhe_sk_1''\<rparr>],
         fheKeys = [\<lparr>key_originId = ''o1'', publicKey = ''pk'', keyFingerprint = ''fp'',
                     isActive = ''true'', createdAt = 1\<rparr>],
         encryptedEvents = []\<rparr> 5
        (Obj [(''originToken'', Str ''fhe_sk_1''), (''timestamp'', Str ''2024-01-01T00:00:00Z''),
              (''page'', Str ''/''), (''eventType'', Str ''conversion''), (''value'', Num PInf)])))
     = 202 \<and>
   map (\<lambda>e. decryptValue (cipherBlob e) [])
     (encryptedEvents (fst (snd (collect
        \<lparr>z_datetime = (\<lambda>s. True), z_number = (\<lambda>n. n \<noteq> NaN), parse_date = (\<lambda>s. 0)\<rparr>
        \<lparr>origins = [\<lparr>oid = ''o1'', domain = ''a.example'', ownerAddress = ''0x1'', token = ''fhe_sk_1''\<rparr>],
         fheKeys = [\<lparr>key_originId = ''o1'', publicKey = ''pk'', keyFingerprint = ''fp'',
                     isActive = ''true'', createdAt = 1\<rparr>],
         encryptedEvents = []\<rparr> 5
        (Obj [(''originToken'', Str ''fhe_sk_1''), (''timestamp'', Str ''2024-01-01T00:00:00Z''),
              (''page'', Str ''/''), (''eventType'', Str ''conversion''), (''value'', Num PInf)])))))
     = [Num (Fin 0)]"
  by (simp add: collect_def schema_parse_def string_field_def optional_number_def any_field_def
      getOriginByToken_def getActiveKey_def order_desc_def createEncryptedEvent_def
      value_or_1_def encryptValue_def decryptValue_def js_or_def Let_def)

section \<open>The client: delivery of one event\<close>

lemma sendEvent_third:
  "sendEvent net event 3 = Fetch event 3 # (if net 3 = Ok then [LogSent] else [LogFailed])"
  by (subst sendEvent.simps) (simp add: retryAttempts_def split: fetch_outcome.splits)

lemma sendEvent_second:
  "sendEvent net event 2 =
     Fetch event 2 #
       (if net 2 = Ok then [LogSent] else LogFailed # Wait 2000 # sendEvent net event 3)"
  by (subst sendEvent.simps) (simp add: retryAttempts_def retryDelay_def
      split: fetch_outcome.splits)

lemma sendEvent_first:
  "sendEvent net event 1 =
     Fetch event 1 #
       (if net 1 = Ok then [LogSent] else LogFailed # Wait 1000 # sendEvent net event 2)"
  by (subst sendEvent.simps) (simp add: retryAttempts_def retryDelay_def numeral_2_eq_2
      split: fetch_outcome.splits)

text \<open>
  Claim C7. \<^verbatim>\<open>sendEvent\<close> posts the event; when the response is not a success
  (or the fetch is rejected) it waits 1000 ms and posts the same event again, then
  2000 ms and once more; after the third failure it does nothing further. A success
  ends the delivery at once. Nothing is thrown to the caller: every failure ends in
  the \<^verbatim>\<open>catch\<close>, which logs it.
\<close>

theorem sendEvent_retries:
  "sendEvent net event 1 =
     Fetch event 1 #
       (if net 1 = Ok then [LogSent]
        else LogFailed # Wait 1000 # Fetch event 2 #
          (if net 2 = Ok then [LogSent]
           else LogFailed # Wait 2000 # Fetch event 3 #
             (if net 3 = Ok then [LogSent] else [LogFailed])))"
  by (simp only: sendEvent_first sendEvent_second sendEvent_third)

theorem sendEvent_retries_witness:
  "sendEvent (\<lambda>k. NotOk 500)
     \<lparr>ev_originToken = ''tok'', ev_timestamp = 7, ev_page = ''/'', ev_eventType = ''event'',
      ev_value = Num (Fin 1), ev_metadata = Obj []\<rparr> 1 =
     [Fetch \<lparr>ev_originToken = ''tok'', ev_timestamp = 7, ev_page = ''/'', ev_eventType = ''event'',
             ev_value = Num (Fin 1), ev_metadata = Obj []\<rparr> 1,
      LogFailed, Wait 1000,
      Fetch \<lparr>ev_originToken = ''tok'', ev_timestamp = 7, ev_page = ''/'', ev_eventType = ''event'',
             ev_value = Num (Fin 1), ev_metadata = Obj []\<rparr> 2,
      LogFailed, Wait 2000,
      Fetch \<lparr>ev_originToken = ''tok'', ev_timestamp = 7, ev_page = ''/'', ev_eventType = ''event'',
             ev_value = Num (Fin 1), ev_metadata = Obj []\<rparr> 3,
      LogFailed] \<and>
   sendEvent (\<lambda>k. if k = 2 then Ok else Rejected)
     \<lparr>ev_originToken = ''tok'', ev_timestamp = 7, ev_page = ''/'', ev_eventType = ''event'',
      ev_value = Num (Fin 1), ev_metadata = Obj []\<rparr> 1 =
     [Fetch \<lparr>ev_originToken = ''tok'', ev_timestamp = 7, ev_page = ''/'', ev_eventType = ''event'',
             ev_value = Num (Fin 1), ev_metadata = Obj []\<rparr> 1,
      LogFailed, Wait 1000,
      Fetch \<lparr>ev_originToken = ''tok'', ev_timestamp = 7, ev_page = ''/'', ev_eventType = ''event'',
             ev_value = Num (Fin 1), ev_metadata = Obj []\<rparr> 2,
      LogSent]"
  using sendEvent_retries [of "\<lambda>k. NotOk 500"
      "\<lparr>ev_originToken = ''tok'', ev_timestamp = 7, ev_page = ''/'', ev_eventType = ''event'',
        ev_value = Num (Fin 1), ev_metadata = Obj []\<rparr>"]
    sendEvent_retries [of "\<lambda>k. if k = 2 then Ok else Rejected"
      "\<lparr>ev_originToken = ''tok'', ev_timestamp = 7, ev_page = ''/'', ev_eventType = ''event'',
        ev_value = Num (Fin 1), ev_metadata = Obj []\<rparr>"]
  by simp

section \<open>The client: batching\<close>

lemma timer_inv_cases:
  "timer_inv a \<Longrightarrow>
   pending a = [] \<or> (\<exists>p. pending a = [p] \<and> batchTimer a = Some (fst p) \<and> eventQueue a \<noteq> [])"
  by (auto simp: timer_inv_def split: list.splits)

lemma queueEvent_step:
  assumes "timer_inv a"
  shows "queueEvent a now ty val meta =
     (let event = \<lparr>ev_originToken = originToken a, ev_timestamp = now, ev_page = pathname a,
                   ev_eventType = ty, ev_value = val, ev_metadata = meta\<rparr>
      in if length (eventQueue a) + 1 \<ge> 5
         then a\<lparr>eventQueue := [], batchTimer := None, pending := [],
                dispatched := dispatched a @ [eventQueue a @ [event]]\<rparr>
         else a\<lparr>eventQueue := eventQueue a @ [event], batchTimer := Some (next_handle a),
                pending := [(next_handle a, now + 3000)],
                next_handle := Suc (next_handle a)\<rparr>)"
  using timer_inv_cases [OF assms]
  by (cases "batchTimer a")
     (auto simp: queueEvent_def Let_def flush_def clearTimeout_def setTimeout_def
        batchSize_def batchTimeout_def)

lemma queueEvent_inv: "timer_inv a \<Longrightarrow> timer_inv (queueEvent a now ty val meta)"
  by (simp add: queueEvent_step Let_def timer_inv_def)

text \<open>
  The invariant holds of the agent the constructor builds and is kept by every
  operation, so it holds in every state the agent reaches.
\<close>

lemma new_agent_inv: "timer_inv (new_agent tok path)"
  by (simp add: new_agent_def timer_inv_def)

lemma flush_inv: "timer_inv a \<Longrightarrow> timer_inv (flush a)"
  using timer_inv_cases [of a]
  by (auto simp: flush_def Let_def clearTimeout_def timer_inv_def split: option.splits)

lemma fire_inv: "timer_inv a \<Longrightarrow> earliest (pending a) = Some (h, due) \<Longrightarrow> timer_inv (fire a h)"
  using timer_inv_cases [of a]
  by (auto simp: fire_def flush_def Let_def clearTimeout_def timer_inv_def split: option.splits)

lemma run_timers_inv: "timer_inv a \<Longrightarrow> timer_inv (run_timers t a)"
proof (induction t a rule: run_timers.induct)
  case (1 t a)
  show ?case
  proof (cases "earliest (pending a)")
    case None
    with "1.prems" show ?thesis by (simp add: run_timers.simps)
  next
    case (Some q)
    obtain h due where q: "q = (h, due)" by (cases q)
    show ?thesis
    proof (cases "due \<le> t")
      case True
      have "timer_inv (fire a h)" using "1.prems" Some q by (simp add: fire_inv)
      then have "timer_inv (run_timers t (fire a h))"
        using "1.IH" [OF Some q [symmetric] True] by simp
      then show ?thesis using Some q True by (simp add: run_timers.simps)
    next
      case False
      with Some q "1.prems" show ?thesis by (simp add: run_timers.simps)
    qed
  qed
qed

lemma run_timers_idle: "\<forall>p \<in> set (pending a). t < snd p \<Longrightarrow> run_timers t a = a"
proof -
  assume h: "\<forall>p \<in> set (pending a). t < snd p"
  have mem: "earliest ps = Some q \<Longrightarrow> q \<in> set ps" for ps :: "(nat \<times> int) list" and q
    by (induction ps arbitrary: q) (auto split: option.splits if_splits)
  show ?thesis
  proof (cases "earliest (pending a)")
    case None
    then show ?thesis by (simp add: run_timers.simps)
  next
    case (Some q)
    with mem h have "t < snd q" by blast
    with Some show ?thesis by (cases q) (simp add: run_timers.simps)
  qed
qed


lemma track_at_step:
  assumes "timer_inv a" and "\<forall>p \<in> set (pending a). t < snd p"
  shows "track_at a (t, n, m) =
     (if length (eventQueue a) + 1 \<ge> 5
      then a\<lparr>eventQueue := [], batchTimer := None, pending := [],
             dispatched := dispatched a @ [eventQueue a @ [event_of a (t, n, m)]]\<rparr>
      else a\<lparr>eventQueue := eventQueue a @ [event_of a (t, n, m)],
             batchTimer := Some (next_handle a),
             pending := [(next_handle a, t + 3000)],
             next_handle := Suc (next_handle a)\<rparr>)"
  by (simp add: track_at_def run_timers_idle [OF assms(2)] trackEvent_def
      queueEvent_step [OF assms(1)] event_of_def Let_def)

lemma track_at_inv:
  "timer_inv a \<Longrightarrow> \<forall>p \<in> set (pending a). t < snd p \<Longrightarrow> timer_inv (track_at a (t, n, m))"
  by (simp add: track_at_step timer_inv_def)

lemma event_of_update [simp]:
  "event_of (a\<lparr>eventQueue := q, batchTimer := b, pending := ps, next_handle := h\<rparr>) c = event_of a c"
  by (simp add: event_of_def)

text \<open>
  Five calls of \<^verbatim>\<open>track\<close> within 100 ms on an empty queue: no timer comes due
  between them, the fifth call flushes, and no timer is left to fire afterwards.
\<close>

lemma burst_of_five:
  assumes inv: "timer_inv a" and empty: "eventQueue a = []"
    and t12: "t1 \<le> t2" and t23: "t2 \<le> t3" and t34: "t3 \<le> t4" and t45: "t4 \<le> t5"
    and near: "t5 \<le> t1 + 100"
  shows "run_timers T (foldl track_at a [(t1, n1, m1), (t2, n2, m2), (t3, n3, m3), (t4, n4, m4), (t5, n5, m5)])
     = a\<lparr>eventQueue := [], batchTimer := None, pending := [],
          next_handle := next_handle a + 4,
          dispatched := dispatched a @
            [[event_of a (t1, n1, m1), event_of a (t2, n2, m2), event_of a (t3, n3, m3),
              event_of a (t4, n4, m4), event_of a (t5, n5, m5)]]\<rparr>"
proof -
  from inv empty have p0: "pending a = []"
    by (auto dest: timer_inv_cases)
  define a1 where "a1 = track_at a (t1, n1, m1)"
  define a2 where "a2 = track_at a1 (t2, n2, m2)"
  define a3 where "a3 = track_at a2 (t3, n3, m3)"
  define a4 where "a4 = track_at a3 (t4, n4, m4)"
  define a5 where "a5 = track_at a4 (t5, n5, m5)"
  have s1: "a1 = a\<lparr>eventQueue := [event_of a (t1, n1, m1)], batchTimer := Some (next_handle a),
                   pending := [(next_handle a, t1 + 3000)], next_handle := Suc (next_handle a)\<rparr>"
    unfolding a1_def using inv p0 empty by (simp add: track_at_step)
  have i1: "timer_inv a1" unfolding a1_def using inv p0 by (simp add: track_at_inv)
  have d2: "\<forall>p \<in> set (pending a1). t2 < snd p" using s1 t12 t23 t34 t45 near by simp
  have s2: "a2 = a\<lparr>eventQueue := [event_of a (t1, n1, m1), event_of a (t2, n2, m2)],
                   batchTimer := Some (Suc (next_handle a)),
                   pending := [(Suc (next_handle a), t2 + 3000)],
                   next_handle := Suc (Suc (next_handle a))\<rparr>"
    unfolding a2_def using i1 d2 by (simp add: track_at_step) (simp add: s1 event_of_def)
  have i2: "timer_inv a2" unfolding a2_def using i1 d2 by (simp add: track_at_inv)
  have d3: "\<forall>p \<in> set (pending a2). t3 < snd p" using s2 t12 t23 t34 t45 near by simp
  have s3: "a3 = a\<lparr>eventQueue := [event_of a (t1, n1, m1), event_of a (t2, n2, m2),
                                  event_of a (t3, n3, m3)],
                   batchTimer := Some (Suc (Suc (next_handle a))),
                   pending := [(Suc (Suc (next_handle a)), t3 + 3000)],
                   next_handle := Suc (Suc (Suc (next_handle a)))\<rparr>"
    unfolding a3_def using i2 d3 by (simp add: track_at_step) (simp add: s2 event_of_def)
  have i3: "timer_inv a3" unfolding a3_def using i2 d3 by (simp add: track_at_inv)
  have d4: "\<forall>p \<in> set (pending a3). t4 < snd p" using s3 t12 t23 t34 t45 near by simp
  have s4: "a4 = a\<lparr>eventQueue := [event_of a (t1, n1, m1), event_of a (t2, n2, m2),
                                  event_of a (t3, n3, m3), event_of a (t4, n4, m4)],
                   batchTimer := Some (Suc (Suc (Suc (next_handle a)))),
                   pending := [(Suc (Suc (Suc (next_handle a))), t4 + 3000)],
                   next_handle := Suc (Suc (Suc (Suc (next_handle a))))\<rparr>"
    unfolding a4_def using i3 d4 by (simp add: track_at_step) (simp add: s3 event_of_def)
  have i4: "timer_inv a4" unfolding a4_def using i3 d4 by (simp add: track_at_inv)
  have d5: "\<forall>p \<in> set (pending a4). t5 < snd p" using s4 t12 t23 t34 t45 near by simp
  have s5: "a5 = a\<lparr>eventQueue := [], batchTimer := None, pending := [],
                   next_handle := next_handle a + 4,
                   dispatched := dispatched a @
                     [[event_of a (t1, n1, m1), event_of a (t2, n2, m2), event_of a (t3, n3, m3),
                       event_of a (t4, n4, m4), event_of a (t5, n5, m5)]]\<rparr>"
    unfolding a5_def using i4 d5 by (simp add: track_at_step) (simp add: s4 event_of_def)
  have "run_timers T a5 = a5"
    by (rule run_timers_idle) (simp add: s5)
  moreover have "foldl track_at a [(t1, n1, m1), (t2, n2, m2), (t3, n3, m3), (t4, n4, m4), (t5, n5, m5)] = a5"
    by (simp add: a1_def a2_def a3_def a4_def a5_def)
  ultimately show ?thesis using s5 by simp
qed

text \<open>
  Claim C5, as amended. In every state the agent reaches, \<^verbatim>\<open>queueEvent\<close> appends
  the event and clears the pending timer; if the queue then holds 5 events they are
  flushed at once and no timer is left, otherwise a single timer of 3000 ms is set.
  So, when the queue is empty at the first of them, 5 calls of \<^verbatim>\<open>track\<close> within
  100 ms lead to exactly one dispatch, of those 5 events, and to no flush by a timer
  however much time passes afterwards. The claim as stated draws this from any queue
  state.
\<close>

theorem client_batching:
  assumes "timer_inv a"
  shows "queueEvent a now ty val meta =
     (let event = \<lparr>ev_originToken = originToken a, ev_timestamp = now, ev_page = pathname a,
                   ev_eventType = ty, ev_value = val, ev_metadata = meta\<rparr>
      in if length (eventQueue a) + 1 \<ge> 5
         then a\<lparr>eventQueue := [], batchTimer := None, pending := [],
                dispatched := dispatched a @ [eventQueue a @ [event]]\<rparr>
         else a\<lparr>eventQueue := eventQueue a @ [event], batchTimer := Some (next_handle a),
                pending := [(next_handle a, now + 3000)],
                next_handle := Suc (next_handle a)\<rparr>) \<and>
   (eventQueue a = [] \<and> t1 \<le> t2 \<and> t2 \<le> t3 \<and> t3 \<le> t4 \<and> t4 \<le> t5 \<and> t5 \<le> t1 + 100 \<longrightarrow>
    run_timers T (foldl track_at a
        [(t1, n1, m1), (t2, n2, m2), (t3, n3, m3), (t4, n4, m4), (t5, n5, m5)])
     = a\<lparr>eventQueue := [], batchTimer := None, pending := [],
          next_handle := next_handle a + 4,
          dispatched := dispatched a @
            [[event_of a (t1, n1, m1), event_of a (t2, n2, m2), event_of a (t3, n3, m3),
              event_of a (t4, n4, m4), event_of a (t5, n5, m5)]]\<rparr>)"
  using queueEvent_step [OF assms] burst_of_five [OF assms] by blast

theorem client_batching_witness:
  "timer_inv (new_agent ''tok'' ''/'') \<and>
   dispatched (run_timers 10000 (foldl track_at (new_agent ''tok'' ''/'')
       [(10, ''a'', Obj []), (20, ''b'', Obj []), (30, ''c'', Obj []), (40, ''d'', Obj []),
        (50, ''e'', Obj [])]))
   = [[event_of (new_agent ''tok'' ''/'') (10, ''a'', Obj []),
       event_of (new_agent ''tok'' ''/'') (20, ''b'', Obj []),
       event_of (new_agent ''tok'' ''/'') (30, ''c'', Obj []),
       event_of (new_agent ''tok'' ''/'') (40, ''d'', Obj []),
       event_of (new_agent ''tok'' ''/'') (50, ''e'', Obj [])]] \<and>
   pending (run_timers 10000 (foldl track_at (new_agent ''tok'' ''/'')
       [(10, ''a'', Obj []), (20, ''b'', Obj []), (30, ''c'', Obj []), (40, ''d'', Obj []),
        (50, ''e'', Obj [])])) = []"
  using client_batching [of "new_agent ''tok'' ''/''" 0 "''x''" Null Null
      10 20 30 40 50 10000 "''a''" "Obj []" "''b''" "Obj []" "''c''" "Obj []" "''d''" "Obj []"
      "''e''" "Obj []"]
  by (simp add: new_agent_def timer_inv_def)

text \<open>
  From the queue that \<^verbatim>\<open>init\<close> leaves (the page view and the session event, with
  their timer pending), the same 5 calls give two dispatches: the first holds the
  two queued events and three of the tracked ones, the second is the timer's.
\<close>

theorem client_batching_counterexample:
  "timer_inv (init (new_agent ''tok'' ''/'') 0) \<and>
   map (map ev_eventType)
     (dispatched (run_timers 10000 (foldl track_at (init (new_agent ''tok'' ''/'') 0)
       [(10, ''a'', Obj []), (20, ''b'', Obj []), (30, ''c'', Obj []), (40, ''d'', Obj []),
        (50, ''e'', Obj [])])))
   = [[''pageview'', ''session'', ''event'', ''event'', ''event''], [''event'', ''event'']]"
  by (simp add: init_def trackPageview_def trackSession_def new_agent_def timer_inv_def
      track_at_def trackEvent_def queueEvent_def flush_def fire_def setTimeout_def
      clearTimeout_def batchSize_def batchTimeout_def run_timers.simps Let_def)

end
